theory Spec2Isabelle
  imports Main "HOL-Library.Word" "HOL-Library.Char_ord" "HOL-Library.List_Lexorder"
    "HOL-Library.Sublist" "HOL-Library.Multiset"
begin

unbundle bit_operations_syntax

section \<open>JavaScript values, strings and buffers\<close>

text \<open>
  A JavaScript string is modelled as a list of code units, restricted to the code units
  \<open>0x00 .. 0xFF\<close> (an Isabelle \<open>char\<close> is eight bits); a Node \<open>Buffer\<close> is a list of
  bytes, also a \<open>char list\<close>. Numbers are restricted to integers that JSON prints in plain
  decimal notation. \<open>JUndefined\<close> is JavaScript's \<open>undefined\<close>: it is not a JSON value but
  it can be the value of a property or an array element of the values the code receives.
  An object is the list of its own enumerable properties in enumeration order; the keys of
  a JavaScript object are distinct.
\<close>

type_synonym bytes = "char list"

datatype jsval =
    JUndefined
  | JNull
  | JBool bool
  | JNum int
  | JStr string
  | JArr "jsval list"
  | JObj "(string \<times> jsval) list"

fun wf_js :: "jsval \<Rightarrow> bool" where
  "wf_js (JArr xs) = list_all wf_js xs"
| "wf_js (JObj kvs) = (distinct (map fst kvs) \<and> list_all (\<lambda>kv. wf_js (snd kv)) kvs)"
| "wf_js _ = True"

text \<open>A JSON value: what \<open>JSON.parse\<close> can return (no \<open>undefined\<close> anywhere).\<close>

fun is_json :: "jsval \<Rightarrow> bool" where
  "is_json JUndefined = False"
| "is_json (JArr xs) = list_all is_json xs"
| "is_json (JObj kvs) = list_all (\<lambda>kv. is_json (snd kv)) kvs"
| "is_json _ = True"

subsection \<open>Decimal and hexadecimal digits\<close>

definition digit_char :: "nat \<Rightarrow> char" where
  "digit_char d = ''0123456789'' ! d"

fun show_nat :: "nat \<Rightarrow> string" where
  "show_nat n = (if n < 10 then [digit_char n] else show_nat (n div 10) @ [digit_char (n mod 10)])"

declare show_nat.simps [simp del]

definition show_int :: "int \<Rightarrow> string" where
  "show_int i = (if i < 0 then CHR ''-'' # show_nat (nat (- i)) else show_nat (nat i))"

definition hex_char :: "nat \<Rightarrow> char" where
  "hex_char d = ''0123456789abcdef'' ! d"

text \<open>\<open>Array.prototype.join\<close> on an array of strings.\<close>

fun join_with :: "string \<Rightarrow> string list \<Rightarrow> string" where
  "join_with sep [] = []"
| "join_with sep [x] = x"
| "join_with sep (x # y # ys) = x @ sep @ join_with sep (y # ys)"

subsection \<open>\<open>JSON.stringify\<close>\<close>

text \<open>
  \<open>QuoteJSONString\<close> of ECMA-262: the double quote and the backslash are escaped, the
  control characters below \<open>0x20\<close> are written \<open>\b \t \n \f \r\<close> or \<open>\u00XX\<close> (lower-case
  hexadecimal), every other code unit of the model stands for itself.
\<close>

definition escape_char :: "char \<Rightarrow> string" where
  "escape_char c =
     (if c = CHR 0x22 then [CHR 0x5C, CHR 0x22]
      else if c = CHR 0x5C then [CHR 0x5C, CHR 0x5C]
      else if c = CHR 0x08 then [CHR 0x5C, CHR ''b'']
      else if c = CHR 0x09 then [CHR 0x5C, CHR ''t'']
      else if c = CHR 0x0A then [CHR 0x5C, CHR ''n'']
      else if c = CHR 0x0C then [CHR 0x5C, CHR ''f'']
      else if c = CHR 0x0D then [CHR 0x5C, CHR ''r'']
      else if (of_char c :: nat) < 32
        then [CHR 0x5C, CHR ''u'', CHR ''0'', CHR ''0'',
              hex_char (of_char c div 16), hex_char (of_char c mod 16)]
      else [c])"

definition JSON_quote :: "string \<Rightarrow> string" where
  "JSON_quote s = CHR 0x22 # concat (map escape_char s) @ [CHR 0x22]"

text \<open>
  \<open>JSON.stringify(value)\<close> (no replacer, no indentation). The result \<open>None\<close> is
  JavaScript's \<open>undefined\<close>, which \<open>JSON.stringify(undefined)\<close> returns. Inside an array an
  \<open>undefined\<close> element is written \<open>null\<close>; inside an object a property whose value is
  \<open>undefined\<close> is left out.
\<close>

fun JSON_stringify :: "jsval \<Rightarrow> string option" where
  "JSON_stringify JUndefined = None"
| "JSON_stringify JNull = Some ''null''"
| "JSON_stringify (JBool b) = Some (if b then ''true'' else ''false'')"
| "JSON_stringify (JNum i) = Some (show_int i)"
| "JSON_stringify (JStr s) = Some (JSON_quote s)"
| "JSON_stringify (JArr xs) =
     Some (''['' @ join_with '',''
        (map (\<lambda>x. case JSON_stringify x of None \<Rightarrow> ''null'' | Some s \<Rightarrow> s) xs) @ '']'')"
| "JSON_stringify (JObj kvs) =
     Some (''{'' @ join_with '',''
        (concat (map (\<lambda>kv. case JSON_stringify (snd kv) of None \<Rightarrow> []
                              | Some s \<Rightarrow> [JSON_quote (fst kv) @ '':'' @ s]) kvs)) @ ''}'')"

text \<open>
  \<open>JSON.parse(JSON.stringify(value))\<close>, the normalisation \<open>createBlock\<close> and the verifiers
  apply to metadata, as the value the composition returns: properties whose value is
  \<open>undefined\<close> are dropped, \<open>undefined\<close> array elements become \<open>null\<close>, everything else
  of the model is kept. For \<open>undefined\<close> itself \<open>JSON.parse(undefined)\<close> throws a
  \<open>SyntaxError\<close>: the result is \<open>None\<close>.
\<close>

fun json_roundtrip :: "jsval \<Rightarrow> jsval option" where
  "json_roundtrip JUndefined = None"
| "json_roundtrip (JArr xs) =
     Some (JArr (map (\<lambda>x. case json_roundtrip x of None \<Rightarrow> JNull | Some y \<Rightarrow> y) xs))"
| "json_roundtrip (JObj kvs) =
     Some (JObj (concat (map (\<lambda>kv. case json_roundtrip (snd kv) of None \<Rightarrow> []
                                     | Some y \<Rightarrow> [(fst kv, y)]) kvs)))"
| "json_roundtrip v = Some v"

subsection \<open>The deterministic serializer\<close>

text \<open>
  \<open>deterministicStringify\<close> of \<open>utils/hash.ts\<close>; \<open>preview-envelope.ts\<close> holds a second
  copy that differs only in the name of a local variable. The result \<open>None\<close> is
  \<open>undefined\<close> (the value \<open>JSON.stringify\<close> returns for \<open>undefined\<close>). In the array branch
  \<open>join\<close> writes an \<open>undefined\<close> element as the empty string; in the object branch the
  template literal writes it as the text \<open>undefined\<close>. \<open>value[key]\<close> is the lookup
  \<open>map_of kvs key\<close>.
\<close>

function deterministicStringify :: "jsval \<Rightarrow> string option" where
  "deterministicStringify (JArr xs) =
     Some (''['' @ join_with '',''
        (map (\<lambda>x. case deterministicStringify x of None \<Rightarrow> [] | Some s \<Rightarrow> s) xs) @ '']'')"
| "deterministicStringify (JObj kvs) =
     Some (''{'' @ join_with '',''
        (map (\<lambda>k. JSON_quote k @ '':'' @
                 (case map_of kvs k of
                    None \<Rightarrow> ''undefined''
                  | Some v \<Rightarrow> (case deterministicStringify v of
                                None \<Rightarrow> ''undefined'' | Some s \<Rightarrow> s)))
             (sort (map fst kvs))) @ ''}'')"
| "deterministicStringify JUndefined = JSON_stringify JUndefined"
| "deterministicStringify JNull = JSON_stringify JNull"
| "deterministicStringify (JBool b) = JSON_stringify (JBool b)"
| "deterministicStringify (JNum i) = JSON_stringify (JNum i)"
| "deterministicStringify (JStr s) = JSON_stringify (JStr s)"
  by pat_completeness auto
termination
proof (relation "measure size")
  show "wf (measure size)" by simp
next
  fix xs :: "jsval list" and x
  assume "x \<in> set xs"
  then have "size x < Suc (size_list size xs)"
    by (induction xs) auto
  then show "(x, JArr xs) \<in> measure size" by simp
next
  fix kvs :: "(string \<times> jsval) list" and k v
  assume "map_of kvs k = Some v"
  then have "(k, v) \<in> set kvs" by (rule map_of_SomeD)
  then have "size v < Suc (size_list (size_prod (\<lambda>_. 0) size) kvs)"
    by (induction kvs) auto
  then show "(v, JObj kvs) \<in> measure size" by simp
qed

section \<open>Node's \<open>crypto\<close> and \<open>Buffer\<close> primitives\<close>

text \<open>
  SHA-256 (FIPS 180-4) on a list of bytes. A 32-bit word is a natural number below
  \<open>2 ^ 32\<close>; additions wrap around by \<open>take_bit 32\<close>. The round constants and the
  initial state are written in decimal.
\<close>

definition K256 :: "nat list" where
  "K256 = [
   1116352408, 1899447441, 3049323471, 3921009573, 961987163, 1508970993, 2453635748, 2870763221,
   3624381080, 310598401, 607225278, 1426881987, 1925078388, 2162078206, 2614888103, 3248222580,
   3835390401, 4022224774, 264347078, 604807628, 770255983, 1249150122, 1555081692, 1996064986,
   2554220882, 2821834349, 2952996808, 3210313671, 3336571891, 3584528711, 113926993, 338241895,
   666307205, 773529912, 1294757372, 1396182291, 1695183700, 1986661051, 2177026350, 2456956037,
   2730485921, 2820302411, 3259730800, 3345764771, 3516065817, 3600352804, 4094571909, 275423344,
   430227734, 506948616, 659060556, 883997877, 958139571, 1322822218, 1537002063, 1747873779,
   1955562222, 2024104815, 2227730452, 2361852424, 2428436474, 2756734187, 3204031479, 3329325298]"

definition H256 :: "nat list" where
  "H256 = [1779033703, 3144134277, 1013904242, 2773480762,
           1359893119, 2600822924, 528734635, 1541459225]"

definition add32 :: "nat \<Rightarrow> nat \<Rightarrow> nat" where
  "add32 x y = take_bit 32 (x + y)"

definition rotr :: "nat \<Rightarrow> nat \<Rightarrow> nat" where
  "rotr n x = drop_bit n x OR push_bit (32 - n) (take_bit n x)"

definition ssig0 :: "nat \<Rightarrow> nat" where
  "ssig0 x = rotr 7 x XOR rotr 18 x XOR drop_bit 3 x"

definition ssig1 :: "nat \<Rightarrow> nat" where
  "ssig1 x = rotr 17 x XOR rotr 19 x XOR drop_bit 10 x"

definition bsig0 :: "nat \<Rightarrow> nat" where
  "bsig0 x = rotr 2 x XOR rotr 13 x XOR rotr 22 x"

definition bsig1 :: "nat \<Rightarrow> nat" where
  "bsig1 x = rotr 6 x XOR rotr 11 x XOR rotr 25 x"

definition ch :: "nat \<Rightarrow> nat \<Rightarrow> nat \<Rightarrow> nat" where
  "ch x y z = (x AND y) XOR ((4294967295 - x) AND z)"

definition maj :: "nat \<Rightarrow> nat \<Rightarrow> nat \<Rightarrow> nat" where
  "maj x y z = (x AND y) XOR (x AND z) XOR (y AND z)"

text \<open>
  The message schedule: the first argument only counts the 48 words to add; the window
  holds the sixteen most recent words, oldest first.
\<close>

fun schedule :: "'a list \<Rightarrow> nat list \<Rightarrow> nat list" where
  "schedule (u # us) (w0 # w1 # w2 # w3 # w4 # w5 # w6 # w7 # w8 # w9 # w10 # w11 # w12 #
       w13 # w14 # w15 # r) =
     w0 # schedule us (w1 # w2 # w3 # w4 # w5 # w6 # w7 # w8 # w9 # w10 # w11 # w12 # w13 #
       w14 # w15 # add32 (add32 (ssig1 w14) w9) (add32 (ssig0 w1) w0) # r)"
| "schedule _ w = w"

fun rounds :: "nat list \<Rightarrow> nat list \<Rightarrow> nat list \<Rightarrow> nat list"
  and rounds2 :: "nat list \<Rightarrow> nat list \<Rightarrow> nat \<Rightarrow> nat \<Rightarrow> nat list \<Rightarrow> nat list" where
  "rounds (k # ks) (w # ws) [a, b, c, d, e, f, g, h] =
     rounds2 ks ws (add32 (add32 (add32 h (bsig1 e)) (add32 (ch e f g) k)) w)
       (add32 (bsig0 a) (maj a b c)) [a, b, c, d, e, f, g]"
| "rounds _ _ s = s"
| "rounds2 ks ws t1 t2 [a, b, c, d, e, f, g] =
     rounds ks ws [add32 t1 t2, a, b, c, add32 d t1, e, f, g]"
| "rounds2 _ _ _ _ s = s"

definition compress :: "nat list \<Rightarrow> nat list \<Rightarrow> nat list" where
  "compress s w = map2 add32 s (rounds K256 (schedule (drop 16 K256) w) s)"

fun be32 :: "nat list \<Rightarrow> nat list" where
  "be32 (a # b # c # d # r) = (((a * 256 + b) * 256 + c) * 256 + d) # be32 r"
| "be32 _ = []"

fun chunk16 :: "nat list \<Rightarrow> nat list list" where
  "chunk16 [] = []"
| "chunk16 (x # xs) = take 16 (x # xs) # chunk16 (drop 16 (x # xs))"

definition bytes_be :: "nat \<Rightarrow> nat \<Rightarrow> nat list" where
  "bytes_be k n = map (\<lambda>i. (n div 256 ^ (k - 1 - i)) mod 256) [0..<k]"

definition sha_pad :: "nat list \<Rightarrow> nat list" where
  "sha_pad m = m @ [128] @ replicate ((119 - length m mod 64) mod 64) 0
                 @ bytes_be 8 (8 * length m)"

definition sha256_bytes :: "nat list \<Rightarrow> nat list" where
  "sha256_bytes m = concat (map (bytes_be 4) (foldl compress H256 (chunk16 (be32 (sha_pad m)))))"

definition sha256 :: "bytes \<Rightarrow> nat list" where
  "sha256 b = sha256_bytes (map of_char b)"

text \<open>\<open>digest('hex')\<close>: two lower-case hexadecimal digits for each byte.\<close>

definition hex :: "nat list \<Rightarrow> string" where
  "hex bs = concat (map (\<lambda>b. [hex_char (b div 16), hex_char (b mod 16)]) bs)"

text \<open>
  HMAC (RFC 2104) with SHA-256, as \<open>crypto.createHmac('sha256', key)\<close> computes it: a key
  longer than the block size of 64 bytes is hashed first, then padded with zero bytes.
\<close>

definition hmac_key :: "nat list \<Rightarrow> nat list" where
  "hmac_key k = (let k' = (if length k > 64 then sha256_bytes k else k)
                 in k' @ replicate (64 - length k') 0)"

definition hmac_sha256_bytes :: "nat list \<Rightarrow> nat list \<Rightarrow> nat list" where
  "hmac_sha256_bytes k m =
     sha256_bytes (map (\<lambda>b. b XOR 0x5c) (hmac_key k)
        @ sha256_bytes (map (\<lambda>b. b XOR 0x36) (hmac_key k) @ m))"

text \<open>
  \<open>Buffer.from(s, 'utf-8')\<close>, which is also what \<open>hash.update(s)\<close> does to a string: a code
  unit below \<open>0x80\<close> is one byte, a code unit from \<open>0x80\<close> to \<open>0xFF\<close> is two bytes.
\<close>

definition utf8_char :: "char \<Rightarrow> bytes" where
  "utf8_char c =
     (if (of_char c :: nat) < 128 then [c]
      else [char_of (192 + (of_char c :: nat) div 64), char_of (128 + (of_char c :: nat) mod 64)])"

definition utf8_encode :: "string \<Rightarrow> bytes" where
  "utf8_encode s = concat (map utf8_char s)"





section \<open>\<open>utils/hash.ts\<close>\<close>

text \<open>
  \<open>calculateHash(data)\<close> for a \<open>Buffer\<close>; for a string argument the callers below pass
  \<open>utf8_encode s\<close>, the bytes \<open>update\<close> hashes.
\<close>

definition calculateHash :: "bytes \<Rightarrow> string" where
  "calculateHash data = hex (sha256 data)"

text \<open>
  \<open>calculateObjectHash(value)\<close>. When \<open>deterministicStringify\<close> returns \<open>undefined\<close>,
  \<open>update(undefined)\<close> throws a \<open>TypeError\<close>: the result is \<open>None\<close>.
\<close>

definition calculateObjectHash :: "jsval \<Rightarrow> string option" where
  "calculateObjectHash v = map_option (\<lambda>s. calculateHash (utf8_encode s)) (deterministicStringify v)"

section \<open>Dates\<close>

text \<open>
  A \<open>Date\<close> is its time value, the milliseconds since the epoch.
  \<open>Date.prototype.toISOString\<close> prints the UTC calendar fields as
  \<open>YYYY-MM-DDTHH:mm:ss.sssZ\<close>, and years outside \<open>0 .. 9999\<close> with a sign and six digits.
  The calendar date follows the proleptic Gregorian calendar (days are counted from
  the first of March of the year 0, in eras of 400 years).
\<close>

definition pad_left :: "nat \<Rightarrow> string \<Rightarrow> string" where
  "pad_left n s = replicate (n - length s) CHR ''0'' @ s"

text \<open>
  \<open>z\<close> is the number of days since the first of March of the year 0; \<open>doe\<close> the day
  of the 400-year era, \<open>yoe\<close> the year of the era, \<open>doy\<close> the day of the year that
  starts in March.
\<close>

definition day_of_era :: "int \<Rightarrow> nat" where
  "day_of_era z = nat (z mod 146097)"

definition year_of_era :: "nat \<Rightarrow> nat" where
  "year_of_era doe = (doe - doe div 1460 + doe div 36524 - doe div 146096) div 365"

definition day_of_year :: "nat \<Rightarrow> nat" where
  "day_of_year doe = doe - (365 * year_of_era doe + year_of_era doe div 4 - year_of_era doe div 100)"

definition month_index :: "nat \<Rightarrow> nat" where
  "month_index doy = (5 * doy + 2) div 153"

definition day_of_month :: "nat \<Rightarrow> nat" where
  "day_of_month doy = doy - (153 * month_index doy + 2) div 5 + 1"

definition month_of :: "nat \<Rightarrow> nat" where
  "month_of doy = (if month_index doy < 10 then month_index doy + 3 else month_index doy - 9)"

definition year_of :: "int \<Rightarrow> int" where
  "year_of z = int (year_of_era (day_of_era z)) + (z div 146097) * 400
               + (if month_of (day_of_year (day_of_era z)) \<le> 2 then 1 else 0)"

definition show_year :: "int \<Rightarrow> string" where
  "show_year y =
     (if 0 \<le> y \<and> y \<le> 9999 then pad_left 4 (show_nat (nat y))
      else (if y < 0 then CHR ''-'' else CHR ''+'') # pad_left 6 (show_nat (nat \<bar>y\<bar>)))"

definition show_date :: "int \<Rightarrow> string" where
  "show_date z = show_year (year_of z) @ ''-''
       @ pad_left 2 (show_nat (month_of (day_of_year (day_of_era z)))) @ ''-''
       @ pad_left 2 (show_nat (day_of_month (day_of_year (day_of_era z))))"

definition show_time :: "nat \<Rightarrow> string" where
  "show_time ms = pad_left 2 (show_nat (ms div 3600000)) @ '':''
       @ pad_left 2 (show_nat (ms div 60000 mod 60)) @ '':''
       @ pad_left 2 (show_nat (ms div 1000 mod 60)) @ ''.''
       @ pad_left 3 (show_nat (ms mod 1000))"

definition toISOString :: "int \<Rightarrow> string" where
  "toISOString t = show_date (t div 86400000 + 719468) @ ''T''
       @ show_time (nat (t mod 86400000)) @ ''Z''"

section \<open>The ledger: \<open>blockchain.service.ts\<close>\<close>

text \<open>
  A row of the table \<open>document_blocks\<close>. \<open>block_id\<close> is the column \<open>id\<close>;
  \<open>previous_hash\<close> is \<open>None\<close> for SQL \<open>NULL\<close>; \<open>created_at\<close> is the \<open>Date\<close> the ORM
  maintains (\<open>timestamps: true, createdAt: 'created_at'\<close>).
\<close>

record DocumentBlock =
  block_id :: int
  document_id :: string
  previous_hash :: "string option"
  hash :: string
  content_hash :: string
  signature_data :: string
  metadata :: jsval
  created_at :: int

text \<open>
  The table: its rows in insertion order and the next value of the \<open>id\<close> sequence.
\<close>

record store =
  rows :: "DocumentBlock list"
  next_id :: int

definition empty_store :: store where
  "empty_store = \<lparr>rows = [], next_id = 1\<rparr>"

text \<open>
  \<open>findAll({order: [['created_at', 'ASC']]})\<close> and
  \<open>findOne({order: [['created_at', 'DESC']]})\<close>. The code gives the store no rule for rows
  with the same \<open>created_at\<close>; the model keeps them in insertion order (a stable sort).
\<close>

definition findAll_asc :: "store \<Rightarrow> DocumentBlock list" where
  "findAll_asc st = sort_key created_at (rows st)"

definition findOne_desc :: "store \<Rightarrow> DocumentBlock option" where
  "findOne_desc st =
     (case sort_key (\<lambda>b. - created_at b) (rows st) of [] \<Rightarrow> None | b # _ \<Rightarrow> Some b)"

text \<open>
  The object both \<open>createBlock\<close> and the verifiers hash. Its \<open>metadata\<close> is the normalised
  metadata, its \<open>timestamp\<close> an ISO string.
\<close>

definition blockData :: "string \<Rightarrow> string option \<Rightarrow> string \<Rightarrow> string \<Rightarrow> jsval \<Rightarrow> string \<Rightarrow> jsval" where
  "blockData documentId previousHash contentHash signatureData normalized timestamp =
     JObj [(''document_id'', JStr documentId),
           (''previous_hash'', (case previousHash of None \<Rightarrow> JNull | Some h \<Rightarrow> JStr h)),
           (''content_hash'', JStr contentHash),
           (''signature_data'', JStr signatureData),
           (''metadata'', normalized),
           (''timestamp'', JStr timestamp)]"

text \<open>
  What \<open>createBlock\<close> can throw: the store's constraint violations, the \<open>SyntaxError\<close> of
  \<open>JSON.parse(undefined)\<close> and the \<open>TypeError\<close> of \<open>hash.update(undefined)\<close>.
\<close>

datatype create_error = UniqueViolation | NotNullViolation | SyntaxError | TypeError

text \<open>
  \<open>DocumentBlock.create\<close>: the columns \<open>document_id\<close> and \<open>hash\<close> are unique, \<open>metadata\<close>
  is not nullable and defaults to the empty object. The ORM sets \<open>created_at\<close> from the
  clock when it builds the row (\<open>now_orm\<close>); the JSONB column holds the JSON of
  \<open>metadata\<close>.
\<close>

definition DocumentBlock_create ::
  "int \<Rightarrow> store \<Rightarrow> string \<Rightarrow> string option \<Rightarrow> string \<Rightarrow> string \<Rightarrow> string \<Rightarrow> jsval
     \<Rightarrow> create_error + (store \<times> DocumentBlock)" where
  "DocumentBlock_create now_orm st documentId previousHash h contentHash signatureData meta =
     (let stored = (case json_roundtrip meta of None \<Rightarrow> JObj [] | Some v \<Rightarrow> v) in
      if stored = JNull then Inl NotNullViolation
      else if documentId \<in> set (map document_id (rows st)) \<or> h \<in> set (map hash (rows st))
        then Inl UniqueViolation
      else
        let block = \<lparr>block_id = next_id st, document_id = documentId,
              previous_hash = previousHash, hash = h, content_hash = contentHash,
              signature_data = signatureData, metadata = stored, created_at = now_orm\<rparr>
        in Inr (\<lparr>rows = rows st @ [block], next_id = next_id st + 1\<rparr>, block))"

text \<open>
  \<open>createBlock\<close>. \<open>now\<close> is the clock read by \<open>new Date()\<close> in the function body,
  \<open>now_orm\<close> the clock read by the ORM inside \<open>DocumentBlock.create\<close>, which runs later.
  An omitted (\<open>undefined\<close>) \<open>metadata\<close> defaults to the empty object. The result is the
  new table and the row that was inserted.
\<close>

definition createBlock ::
  "int \<Rightarrow> int \<Rightarrow> store \<Rightarrow> string \<Rightarrow> string \<Rightarrow> string \<Rightarrow> jsval
     \<Rightarrow> create_error + (store \<times> DocumentBlock)" where
  "createBlock now now_orm st documentId contentHash signatureData metadata0 =
     (let meta = (if metadata0 = JUndefined then JObj [] else metadata0);
          previousBlock = findOne_desc st;
          previousHash = (case previousBlock of None \<Rightarrow> None | Some b \<Rightarrow> Some (hash b));
          timestamp = toISOString now
      in case json_roundtrip meta of
           None \<Rightarrow> Inl SyntaxError
         | Some normalized \<Rightarrow>
            (case deterministicStringify
                    (blockData documentId previousHash contentHash signatureData normalized timestamp) of
               None \<Rightarrow> Inl TypeError
             | Some s \<Rightarrow>
                 DocumentBlock_create now_orm st documentId previousHash
                   (calculateHash (utf8_encode s)) contentHash signatureData meta))"

text \<open>
  The hash the verifiers recompute from a stored row. \<open>None\<close> stands for the exception
  \<open>JSON.parse\<close> throws when the stored metadata is \<open>undefined\<close>, which no row read from
  the table has.
\<close>

definition calculatedHash :: "DocumentBlock \<Rightarrow> string option" where
  "calculatedHash block =
     (case json_roundtrip (metadata block) of
        None \<Rightarrow> None
      | Some normalized \<Rightarrow>
          map_option (\<lambda>s. calculateHash (utf8_encode s))
            (deterministicStringify
               (blockData (document_id block) (previous_hash block) (content_hash block)
                  (signature_data block) normalized (toISOString (created_at block)))))"

record verify_result =
  valid :: bool
  errors :: "string list"

text \<open>
  The loop of \<open>verifyBlockchain\<close>: \<open>i\<close> is the loop index, \<open>errs\<close> the array \<open>errors\<close> so
  far. The result \<open>None\<close> is the exception of \<open>calculatedHash\<close>.
\<close>

function verify_loop :: "DocumentBlock list \<Rightarrow> nat \<Rightarrow> string list \<Rightarrow> string list option" where
  "verify_loop blocks i errs =
     (if i < length blocks then
        (let block = blocks ! i in
         case calculatedHash block of
           None \<Rightarrow> None
         | Some h \<Rightarrow>
            let errs1 = (if h \<noteq> hash block
                         then errs @ [''Block '' @ show_int (block_id block) @ '' has invalid hash'']
                         else errs);
                errs2 = (if i > 0 then
                           (if previous_hash block \<noteq> Some (hash (blocks ! (i - 1)))
                            then errs1 @ [''Block '' @ show_int (block_id block)
                                            @ '' has invalid previous hash link'']
                            else errs1)
                         else if previous_hash block \<noteq> None
                            then errs1 @ [''First block '' @ show_int (block_id block)
                                            @ '' should have null previous_hash'']
                         else errs1)
            in verify_loop blocks (i + 1) errs2)
      else Some errs)"
  by pat_completeness auto
termination
  by (relation "measure (\<lambda>(blocks, i, errs). length blocks - i)") auto

declare verify_loop.simps [simp del]

definition verifyBlockchain :: "store \<Rightarrow> verify_result option" where
  "verifyBlockchain st =
     map_option (\<lambda>errs. \<lparr>valid = (length errs = 0), errors = errs\<rparr>)
       (verify_loop (findAll_asc st) 0 [])"

text \<open>
  \<open>parseSignatureData\<close>. \<open>parse\<close> stands for \<open>JSON.parse\<close>: the value it returns, or
  \<open>None\<close> when it throws.
\<close>

definition parseSignatureData :: "(string \<Rightarrow> jsval option) \<Rightarrow> string \<Rightarrow> jsval list" where
  "parseSignatureData parse data =
     (if data = [] then []
      else case parse data of
             None \<Rightarrow> []
           | Some parsed \<Rightarrow> (case parsed of JArr xs \<Rightarrow> xs | _ \<Rightarrow> []))"

record AnonymizedBlock =
  sequence :: nat
  block_hash :: string
  previous_hash_anon :: "string option"
  content_hash_anon :: string
  signature_count :: nat
  signature_hash :: string
  metadata_keys :: "string list"
  created_at_anon :: int

text \<open>\<open>Object.keys\<close>: the own enumerable property names (the indices of an array or a string).\<close>

definition Object_keys :: "jsval \<Rightarrow> string list" where
  "Object_keys v =
     (case v of
        JObj kvs \<Rightarrow> map fst kvs
      | JArr xs \<Rightarrow> map show_nat [0..<length xs]
      | JStr s \<Rightarrow> map show_nat [0..<length s]
      | _ \<Rightarrow> [])"

text \<open>\<open>a ?? b\<close> on the values of the model.\<close>

definition nullish :: "jsval \<Rightarrow> jsval \<Rightarrow> jsval" where
  "nullish a b = (if a = JUndefined \<or> a = JNull then b else a)"

text \<open>
  \<open>getAnonymizedBlockchain(limit = 1000)\<close>: \<open>None\<close> is an omitted \<open>limit\<close>. The rows are the
  first \<open>limit\<close> of \<open>findAll\<close> in ascending order of \<open>created_at\<close>; \<open>map\<close> passes the
  index of each row.
\<close>

definition anonymize :: "(string \<Rightarrow> jsval option) \<Rightarrow> nat \<Rightarrow> DocumentBlock \<Rightarrow> AnonymizedBlock" where
  "anonymize parse index block =
     (let signatureArray = parseSignatureData parse (signature_data block) in
      \<lparr>sequence = index + 1,
       block_hash = hash block,
       previous_hash_anon = previous_hash block,
       content_hash_anon = content_hash block,
       signature_count = length signatureArray,
       signature_hash = calculateHash (utf8_encode (signature_data block)),
       metadata_keys = Object_keys (nullish (metadata block) (JObj [])),
       created_at_anon = created_at block\<rparr>)"

definition getAnonymizedBlockchain ::
  "(string \<Rightarrow> jsval option) \<Rightarrow> nat option \<Rightarrow> store \<Rightarrow> AnonymizedBlock list" where
  "getAnonymizedBlockchain parse limit st =
     (let blocks = take (case limit of None \<Rightarrow> 1000 | Some n \<Rightarrow> n) (findAll_asc st)
      in map (\<lambda>(index, block). anonymize parse index block) (zip [0..<length blocks] blocks))"

subsection \<open>The export route\<close>

text \<open>
  \<open>parseInt(s, 10)\<close>: leading white space is skipped, a sign is read, then the longest
  run of decimal digits; \<open>None\<close> is \<open>NaN\<close>.
\<close>

definition is_space :: "char \<Rightarrow> bool" where
  "is_space c = (c \<in> set [CHR 0x09, CHR 0x0A, CHR 0x0B, CHR 0x0C, CHR 0x0D, CHR 0x20, CHR 0xA0])"

definition is_digit :: "char \<Rightarrow> bool" where
  "is_digit c = (48 \<le> (of_char c :: nat) \<and> (of_char c :: nat) \<le> 57)"

definition digits_value :: "string \<Rightarrow> int" where
  "digits_value ds = foldl (\<lambda>a c. 10 * a + (int (of_char c) - 48)) 0 ds"

definition parseInt10 :: "string \<Rightarrow> int option" where
  "parseInt10 s =
     (let t = dropWhile is_space s;
          neg = (t \<noteq> [] \<and> hd t = CHR ''-'');
          u = (if t \<noteq> [] \<and> (hd t = CHR ''-'' \<or> hd t = CHR ''+'') then tl t else t);
          ds = takeWhile is_digit u
      in if ds = [] then None
         else Some (if neg then - digits_value ds else digits_value ds))"

text \<open>
  The handler of \<open>GET /blockchain/export\<close>: \<open>q\<close> is \<open>req.query.limit\<close> (\<open>None\<close> when the
  parameter is absent; \<open>parseInt(undefined, 10)\<close> is \<open>NaN\<close>).
\<close>

definition safeLimit :: "string option \<Rightarrow> int" where
  "safeLimit q =
     (let limitParam = (case q of None \<Rightarrow> None | Some s \<Rightarrow> parseInt10 s)
      in case limitParam of None \<Rightarrow> 1000 | Some l \<Rightarrow> min (max l 1) 5000)"

definition export_get ::
  "(string \<Rightarrow> jsval option) \<Rightarrow> string option \<Rightarrow> store \<Rightarrow> nat \<times> AnonymizedBlock list" where
  "export_get parse q st =
     (let blocks = getAnonymizedBlockchain parse (Some (nat (safeLimit q))) st
      in (length blocks, blocks))"

section \<open>The preview envelope: \<open>preview-envelope.ts\<close>\<close>



text \<open>\<open>crypto.createHmac('sha256', key).update(text).digest('hex')\<close>.\<close>

definition hmac_hex :: "string \<Rightarrow> string \<Rightarrow> string" where
  "hmac_hex key msg =
     hex (hmac_sha256_bytes (map of_char (utf8_encode key)) (map of_char (utf8_encode msg)))"

record AttachPreviewResult =
  buffer :: bytes
  envelope :: jsval
  encodedEnvelope :: string

definition markerTag :: bytes where
  "markerTag = ''%%DocuChainPreview:''"




text \<open>\<open>Buffer.prototype.lastIndexOf(tag)\<close> and \<open>indexOf(byte, start)\<close>; \<open>None\<close> is \<open>-1\<close>.\<close>

fun lastIndexOf :: "bytes \<Rightarrow> bytes \<Rightarrow> nat option" where
  "lastIndexOf [] tag = (if tag = [] then Some 0 else None)"
| "lastIndexOf (x # xs) tag =
     (case lastIndexOf xs tag of
        Some i \<Rightarrow> Some (Suc i)
      | None \<Rightarrow> if prefix tag (x # xs) then Some 0 else None)"

fun indexOf :: "char \<Rightarrow> bytes \<Rightarrow> nat option" where
  "indexOf c [] = None"
| "indexOf c (x # xs) = (if x = c then Some 0 else map_option Suc (indexOf c xs))"

definition indexOf_from :: "bytes \<Rightarrow> char \<Rightarrow> nat \<Rightarrow> nat option" where
  "indexOf_from b c start = map_option (\<lambda>i. start + i) (indexOf c (drop start b))"

record PreviewExtractionResult =
  envelope' :: jsval
  unsignedBuffer :: bytes

text \<open>
  The parts of \<open>extractPreviewEnvelope\<close>: the bytes between the marker tag and the next
  line feed (\<open>base64Slice\<close>, before \<open>toString\<close> and \<open>trim\<close>), and the end of the content
  after one line feed and then one carriage return before the marker have been dropped
  (\<open>contentEnd\<close>).
\<close>

definition base64Slice :: "bytes \<Rightarrow> nat \<Rightarrow> bytes" where
  "base64Slice pdfBuffer markerStart =
     (let base64Start = markerStart + length markerTag
      in case indexOf_from pdfBuffer (CHR 0x0A) base64Start of
           None \<Rightarrow> drop base64Start pdfBuffer
         | Some newlineIndex \<Rightarrow> take (newlineIndex - base64Start) (drop base64Start pdfBuffer))"

definition trim_LF :: "bytes \<Rightarrow> nat \<Rightarrow> nat" where
  "trim_LF pdfBuffer contentEnd =
     (if contentEnd > 0 \<and> pdfBuffer ! (contentEnd - 1) = CHR 0x0A then contentEnd - 1 else contentEnd)"

definition trim_CR :: "bytes \<Rightarrow> nat \<Rightarrow> nat" where
  "trim_CR pdfBuffer contentEnd =
     (if contentEnd > 0 \<and> pdfBuffer ! (contentEnd - 1) = CHR 0x0D then contentEnd - 1 else contentEnd)"

text \<open>
  \<open>extractPreviewEnvelope\<close>. \<open>decode\<close> stands for the library calls on the slice,
  \<open>JSON.parse(Buffer.from(slice.toString('utf-8').trim(), 'base64').toString('utf-8'))\<close>:
  the value \<open>JSON.parse\<close> returns, or \<open>None\<close> when it throws (the other calls never
  throw). The envelope \<open>JNull\<close> is \<open>null\<close>.
\<close>

definition extractPreviewEnvelope :: "(bytes \<Rightarrow> jsval option) \<Rightarrow> bytes \<Rightarrow> PreviewExtractionResult" where
  "extractPreviewEnvelope decode pdfBuffer =
     (case lastIndexOf pdfBuffer markerTag of
        None \<Rightarrow> \<lparr>envelope' = JNull, unsignedBuffer = pdfBuffer\<rparr>
      | Some markerStart \<Rightarrow>
         (case decode (base64Slice pdfBuffer markerStart) of
            None \<Rightarrow> \<lparr>envelope' = JNull, unsignedBuffer = pdfBuffer\<rparr>
          | Some env \<Rightarrow>
              \<lparr>envelope' = env,
               unsignedBuffer = take (trim_CR pdfBuffer (trim_LF pdfBuffer markerStart)) pdfBuffer\<rparr>))"

section \<open>Sign-time verification: \<open>signDocument\<close>\<close>

text \<open>JavaScript's truthiness, and property access \<open>v[k]\<close> for a name \<open>k\<close> that is
  neither \<open>length\<close> nor an index.\<close>

definition truthy :: "jsval \<Rightarrow> bool" where
  "truthy v =
     (case v of
        JUndefined \<Rightarrow> False | JNull \<Rightarrow> False | JBool b \<Rightarrow> b | JNum i \<Rightarrow> i \<noteq> 0
      | JStr s \<Rightarrow> s \<noteq> [] | JArr _ \<Rightarrow> True | JObj _ \<Rightarrow> True)"

definition get_prop :: "jsval \<Rightarrow> string \<Rightarrow> jsval" where
  "get_prop v k =
     (case v of
        JObj kvs \<Rightarrow> (case map_of kvs k of None \<Rightarrow> JUndefined | Some x \<Rightarrow> x)
      | _ \<Rightarrow> JUndefined)"

text \<open>\<open>const { hmac: _hmac, ...envelopeWithoutHmac } = envelope\<close> for an object.\<close>

definition without_hmac :: "jsval \<Rightarrow> jsval" where
  "without_hmac v =
     (case v of JObj kvs \<Rightarrow> JObj (filter (\<lambda>kv. fst kv \<noteq> ''hmac'') kvs) | _ \<Rightarrow> JObj [])"

text \<open>
  \<open>decodePreviewSignatureField\<close>: \<open>decode_field\<close> stands for
  \<open>JSON.parse(Buffer.from(raw, 'base64').toString('utf-8'))\<close>, \<open>None\<close> when it throws.
\<close>

definition decodePreviewSignatureField :: "(string \<Rightarrow> jsval option) \<Rightarrow> string option \<Rightarrow> jsval" where
  "decodePreviewSignatureField decode_field raw =
     (case raw of
        None \<Rightarrow> JNull
      | Some r \<Rightarrow> if r = [] then JNull
                  else (case decode_field r of None \<Rightarrow> JNull | Some v \<Rightarrow> v))"

text \<open>
  The checks \<open>signDocument\<close> makes before it renders the signed document: the response
  it returns early, or the envelope it goes on with.
\<close>

datatype sign_check = Rejected nat string | Accepted jsval

definition signDocument_checks ::
  "(bytes \<Rightarrow> jsval option) \<Rightarrow> (string \<Rightarrow> jsval option) \<Rightarrow> string option
     \<Rightarrow> bytes option \<Rightarrow> string option \<Rightarrow> sign_check" where
  "signDocument_checks decode decode_field HMAC_SECRET_KEY file preview_signature =
     (case file of
        None \<Rightarrow> Rejected 400 ''PDF file upload is required (field name: pdf)''
      | Some pdfBuffer \<Rightarrow>
         let ex = extractPreviewEnvelope decode pdfBuffer;
             embeddedEnvelope = envelope' ex;
             providedEnvelope = decodePreviewSignatureField decode_field preview_signature;
             env = nullish providedEnvelope embeddedEnvelope
         in if \<not> truthy env then Rejected 400 ''Preview envelope not found in upload''
            else if truthy (get_prop env ''hmac'') \<and>
                    (HMAC_SECRET_KEY = None \<or> HMAC_SECRET_KEY = Some [])
              then Rejected 400 ''Preview envelope is signed but server has no HMAC secret''
            else if truthy (get_prop env ''hmac'') \<and>
                    map_option (\<lambda>s. JStr (hmac_hex (case HMAC_SECRET_KEY of None \<Rightarrow> [] | Some k \<Rightarrow> k) s))
                      (deterministicStringify (without_hmac env)) \<noteq> Some (get_prop env ''hmac'')
              then Rejected 422 ''Preview envelope HMAC verification failed''
            else
              let bufferForHash = (if truthy embeddedEnvelope then unsignedBuffer ex else pdfBuffer);
                  actualHash = calculateHash bufferForHash
              in if JStr actualHash \<noteq> get_prop env ''content_hash''
                   then Rejected 422 ''Uploaded PDF does not match preview hash''
                 else if map_option JStr (calculateObjectHash (nullish (get_prop env ''metadata'') (JObj [])))
                           \<noteq> Some (get_prop env ''metadata_hash'')
                   then Rejected 422 ''Preview metadata hash mismatch''
                 else Accepted env)"

section \<open>The specification's wording of \<open>verifyAll\<close>\<close>

text \<open>
  The error messages as the specification lists them: for each block, in chronological
  order, the hash error and then the link error of the block.
\<close>

definition hash_errors :: "DocumentBlock \<Rightarrow> string list" where
  "hash_errors b =
     (if calculatedHash b \<noteq> Some (hash b)
      then [''Block '' @ show_int (block_id b) @ '' has invalid hash''] else [])"

definition link_errors :: "DocumentBlock list \<Rightarrow> nat \<Rightarrow> string list" where
  "link_errors blocks i =
     (if i > 0 then
        (if previous_hash (blocks ! i) \<noteq> Some (hash (blocks ! (i - 1)))
         then [''Block '' @ show_int (block_id (blocks ! i)) @ '' has invalid previous hash link'']
         else [])
      else
        (if previous_hash (blocks ! i) \<noteq> None
         then [''First block '' @ show_int (block_id (blocks ! i)) @ '' should have null previous_hash'']
         else []))"

definition verifyAll_errors :: "DocumentBlock list \<Rightarrow> string list" where
  "verifyAll_errors blocks =
     concat (map (\<lambda>i. hash_errors (blocks ! i) @ link_errors blocks i) [0..<length blocks])"

section \<open>Example ledgers\<close>




text \<open>Two rows that were not produced by \<open>createBlock\<close>, inserted out of chronological order.\<close>

definition ex_store_bad :: store where
  "ex_store_bad =
     \<lparr>rows =
        [\<lparr>block_id = 7, document_id = ''doc-7'', previous_hash = Some ''x'', hash = ''h7'',
          content_hash = ''ccc'', signature_data = ''[]'', metadata = JObj [],
          created_at = 1704067200010\<rparr>,
         \<lparr>block_id = 3, document_id = ''doc-3'', previous_hash = Some ''zz'', hash = ''h3'',
          content_hash = ''ddd'', signature_data = ''[]'', metadata = JObj [],
          created_at = 1704067200005\<rparr>],
      next_id = 8\<rparr>"

section \<open>Definitions the statements about the export use\<close>

text \<open>
  What the anonymized export reads of a row: every column but \<open>id\<close> and \<open>document_id\<close>,
  and of the metadata only its key names. The number of signatures is the length of the
  list \<open>signature_data\<close> parses to, 0 if it is empty or does not parse to a list.
\<close>

definition same_public :: "DocumentBlock \<Rightarrow> DocumentBlock \<Rightarrow> bool" where
  "same_public b b' =
     (hash b = hash b' \<and> previous_hash b = previous_hash b' \<and> content_hash b = content_hash b' \<and>
      signature_data b = signature_data b' \<and> created_at b = created_at b' \<and>
      Object_keys (nullish (metadata b) (JObj [])) = Object_keys (nullish (metadata b') (JObj [])))"

definition signature_list_length :: "(string \<Rightarrow> jsval option) \<Rightarrow> string \<Rightarrow> nat" where
  "signature_list_length parse data =
     (if data = [] then 0
      else case parse data of Some (JArr xs) \<Rightarrow> length xs | _ \<Rightarrow> 0)"

text \<open>An example table, its rows inserted out of chronological order, and what
  \<open>JSON.parse\<close> returns on its two \<open>signature_data\<close> strings.\<close>

definition ex_signatures :: string where
  "ex_signatures = ''['' @ JSON_quote ''alice'' @ '','' @ JSON_quote ''bob'' @ '']''"

definition ex_parse :: "string \<Rightarrow> jsval option" where
  "ex_parse s = (if s = ex_signatures then Some (JArr [JStr ''alice'', JStr ''bob'']) else None)"

definition ex_store_export :: store where
  "ex_store_export =
     \<lparr>rows =
        [\<lparr>block_id = 2, document_id = ''doc-b'', previous_hash = Some ''h1'', hash = ''h2'',
          content_hash = ''bbb'', signature_data = ex_signatures,
          metadata = JObj [(''placeholders'', JObj [(''name'', JStr ''Jane'')]),
                           (''pdf_path'', JStr ''./tmp/pdfs/doc-b.pdf'')],
          created_at = 1704067200020\<rparr>,
         \<lparr>block_id = 1, document_id = ''doc-a'', previous_hash = None, hash = ''h1'',
          content_hash = ''aaa'', signature_data = ''not json'', metadata = JObj [],
          created_at = 1704067200010\<rparr>],
      next_id = 3\<rparr>"

section \<open>Definitions the statements about the serializer use\<close>

text \<open>
  Structural equality of two values regardless of key order: objects are equal when
  they have the same keys and, for each key, equal values.
\<close>

inductive js_equiv :: "jsval \<Rightarrow> jsval \<Rightarrow> bool" where
  same: "js_equiv v v"
| arr: "list_all2 js_equiv xs ys \<Longrightarrow> js_equiv (JArr xs) (JArr ys)"
| obj: "distinct (map fst xs) \<Longrightarrow> distinct (map fst ys) \<Longrightarrow>
        set (map fst xs) = set (map fst ys) \<Longrightarrow>
        (\<forall>k v. map_of xs k = Some v \<longrightarrow> (\<exists>w. map_of ys k = Some w \<and> js_equiv v w)) \<Longrightarrow>
        js_equiv (JObj xs) (JObj ys)"

text \<open>The value with the properties of every object sorted by key.\<close>

fun sort_keys :: "jsval \<Rightarrow> jsval" where
  "sort_keys (JArr xs) = JArr (map sort_keys xs)"
| "sort_keys (JObj kvs) = JObj (sort_key fst (map (\<lambda>kv. (fst kv, sort_keys (snd kv))) kvs))"
| "sort_keys v = v"

definition ex_m1 :: jsval where
  "ex_m1 = JObj [(''b'', JNum 1),
                 (''a'', JArr [JBool True, JNull, JObj [(''y'', JStr ''q''), (''x'', JNum (- 2))]])]"

definition ex_m2 :: jsval where
  "ex_m2 = JObj [(''a'', JArr [JBool True, JNull, JObj [(''x'', JNum (- 2)), (''y'', JStr ''q'')]]),
                 (''b'', JNum 1)]"



section \<open>Definitions the statements about appended ledgers use\<close>

text \<open>
  The text \<open>createBlock\<close> hashes for a first block \<open>doc-1\<close> with content hash \<open>aaa\<close>, no
  signatures and empty metadata, as a function of the ISO string of the instant.
\<close>

definition ex_hashed_text :: "string \<Rightarrow> string" where
  "ex_hashed_text ts =
     ''{'' @ JSON_quote ''content_hash'' @ '':'' @ JSON_quote ''aaa'' @ '','' @
       JSON_quote ''document_id'' @ '':'' @ JSON_quote ''doc-1'' @ '','' @
       JSON_quote ''metadata'' @ '':{},'' @
       JSON_quote ''previous_hash'' @ '':null,'' @
       JSON_quote ''signature_data'' @ '':'' @ JSON_quote ''[]'' @ '','' @
       JSON_quote ''timestamp'' @ '':'' @ JSON_quote ts @ ''}''"

text \<open>
  The row \<open>createBlock\<close> inserts into the empty table when \<open>new Date()\<close> in its body
  reads 2024-01-01T00:00:00.000Z and the ORM, one millisecond later, stamps
  \<open>created_at\<close> with 2024-01-01T00:00:00.001Z.
\<close>

definition ex_genesis :: DocumentBlock where
  "ex_genesis = \<lparr>block_id = 1, document_id = ''doc-1'', previous_hash = None,
     hash = ''400c3168547dfdbba5397f28af164bf96e4607c10cd2ec183a911c71d5d9e4d8'',
     content_hash = ''aaa'', signature_data = ''[]'', metadata = JObj [],
     created_at = 1704067200001\<rparr>"

text \<open>
  The tables that a sequence of \<open>createBlock\<close> calls builds from the empty table when, in
  each call, the ORM's clock reading equals the one of the function body, and every call
  happens at a later instant than the rows already stored.
\<close>

inductive appended :: "store \<Rightarrow> bool" where
  start: "appended empty_store"
| step: "appended st \<Longrightarrow> \<forall>q\<in>set (rows st). created_at q < now \<Longrightarrow>
         createBlock now now st d c s m = Inr (st', b) \<Longrightarrow> appended st'"

section \<open>Evaluation rules\<close>

lemma replicate_num: "replicate (numeral k) x = x # replicate (pred_numeral k) x"
  by (simp add: numeral_eq_Suc)

lemma len_plus1: "length (x # xs) = length xs + 1"
  by simp

lemmas text_eval = show_nat.simps show_int_def digit_char_def hex_char_def JSON_quote_def
  escape_char_def utf8_encode_def utf8_char_def pad_left_def replicate_num

lemmas date_eval = toISOString_def show_date_def show_time_def show_year_def year_of_def
  month_of_def day_of_month_def month_index_def day_of_year_def year_of_era_def day_of_era_def

lemmas ledger_eval = createBlock_def DocumentBlock_create_def findOne_desc_def findAll_asc_def
  blockData_def calculatedHash_def verifyBlockchain_def empty_store_def

lemmas sha_eval = calculateHash_def sha256_def sha256_bytes_def sha_pad_def bytes_be_def hex_def
  hex_char_def compress_def K256_def H256_def add32_def rotr_def ssig0_def ssig1_def bsig0_def
  bsig1_def ch_def maj_def len_plus1 upt_conv_Cons replicate_num

section \<open>Digests\<close>

lemma length_rounds:
  "length s = 8 \<Longrightarrow> length (rounds ks ws s) = 8"
  "length s = 7 \<Longrightarrow> length (rounds2 ks ws t1 t2 s) = 8"
  by (induction ks ws s and ks ws t1 t2 s rule: rounds_rounds2.induct) auto

lemma length_compress: "length s = 8 \<Longrightarrow> length (compress s w) = 8"
  by (simp add: compress_def length_rounds)

lemma length_foldl_compress: "length s = 8 \<Longrightarrow> length (foldl compress s ws) = 8"
  by (induction ws arbitrary: s) (simp_all add: length_compress)

lemma length_sha256_bytes: "length (sha256_bytes m) = 32"
proof -
  have len: "length (foldl compress H256 cs) = 8" for cs
    by (rule length_foldl_compress) (simp add: H256_def)
  then have "\<forall>x\<in>set (foldl compress H256 cs). length (bytes_be 4 x) = 4" for cs
    by (simp add: bytes_be_def)
  then show ?thesis
    unfolding sha256_bytes_def
    by (simp add: length_concat sum_list_triv bytes_be_def o_def len)
qed

lemma length_hex: "length (hex bs) = 2 * length bs"
  by (induction bs) (simp_all add: hex_def)

lemma length_calculateHash: "length (calculateHash b) = 64"
  by (simp add: calculateHash_def length_hex sha256_def length_sha256_bytes)

lemma calculateHash_neq: "length s \<noteq> 64 \<Longrightarrow> (calculateHash b = s) = False"
  using length_calculateHash [of b] by auto

section \<open>The store\<close>

lemma findOne_desc_empty: "findOne_desc st = None \<longleftrightarrow> rows st = []"
proof -
  have "length (sort_key (\<lambda>b. - created_at b) (rows st)) = length (rows st)" by simp
  then show ?thesis
    unfolding findOne_desc_def by (cases "sort_key (\<lambda>b. - created_at b) (rows st)") auto
qed

lemma findOne_desc_latest:
  assumes "findOne_desc st = Some p"
  shows "p \<in> set (rows st) \<and> (\<forall>q\<in>set (rows st). created_at q \<le> created_at p)"
proof -
  let ?s = "sort_key (\<lambda>b. - created_at b) (rows st)"
  from assms obtain ps where s: "?s = p # ps"
    unfolding findOne_desc_def by (cases ?s) auto
  have eq: "set ?s = set (rows st)" by simp
  with s have mem: "p \<in> set (rows st)" by (metis list.set_intros(1))
  have "sorted (map (\<lambda>b. - created_at b) ?s)" by (rule sorted_sort_key)
  with s have "\<forall>q\<in>set ps. - created_at p \<le> - created_at q" by simp
  moreover have "set (rows st) = insert p (set ps)" using s eq by (metis list.simps(15))
  ultimately show ?thesis using mem by auto
qed

lemma createBlock_Inr:
  assumes "createBlock now now_orm st d c s m = Inr (st', b)"
  shows "rows st' = rows st @ [b] \<and> previous_hash b = map_option hash (findOne_desc st)
         \<and> document_id b = d \<and> content_hash b = c \<and> signature_data b = s
         \<and> created_at b = now_orm \<and> block_id b = next_id st"
  using assms
  unfolding createBlock_def DocumentBlock_create_def Let_def
  by (auto split: option.splits if_splits simp: map_option_case)


section \<open>The claims\<close>

subsection \<open>C4: the predecessor link of a new block\<close>



subsection \<open>C7: \<open>verifyBlockchain\<close> reports every problem\<close>

lemma json_roundtrip_None: "json_roundtrip m = None \<longleftrightarrow> m = JUndefined"
  by (cases m) auto

lemma calculatedHash_None: "calculatedHash b = None \<longleftrightarrow> metadata b = JUndefined"
  by (auto simp: calculatedHash_def blockData_def json_roundtrip_None split: option.splits)

lemma verify_loop_eq:
  assumes "\<forall>b\<in>set blocks. metadata b \<noteq> JUndefined"
  shows "verify_loop blocks i errs =
           Some (errs @ concat (map (\<lambda>j. hash_errors (blocks ! j) @ link_errors blocks j)
                                  [i..<length blocks]))"
proof (induction "length blocks - i" arbitrary: i errs)
  case 0
  then have "\<not> i < length blocks" by simp
  then show ?case by (subst verify_loop.simps) simp
next
  case (Suc n)
  then have lt: "i < length blocks" by simp
  then have "blocks ! i \<in> set blocks" by simp
  with assms have "calculatedHash (blocks ! i) \<noteq> None" by (simp add: calculatedHash_None)
  then obtain h where h: "calculatedHash (blocks ! i) = Some h" by auto
  have n: "n = length blocks - (i + 1)" using Suc.hyps(2) by simp
  have upt: "[i..<length blocks] = i # [i + 1..<length blocks]"
    using lt by (simp add: upt_conv_Cons)
  show ?case
    apply (subst verify_loop.simps)
    apply (simp only: lt if_True Let_def h option.case)
    apply (subst Suc.hyps(1) [OF n])
    apply (simp add: upt hash_errors_def link_errors_def h)
    done
qed

text \<open>
  C7. \<open>verifyBlockchain\<close> walks every block in chronological order (the rows of the
  table sorted by \<open>created_at\<close>) and never stops early: its \<open>errors\<close> are, block after
  block, \<open>Block <id> has invalid hash\<close> for each hash mismatch, then
  \<open>Block <id> has invalid previous hash link\<close> for each later block whose \<open>previous_hash\<close>
  is not the hash of the block before it, or
  \<open>First block <id> should have null previous_hash\<close> for a first block with a
  \<open>previous_hash\<close>; \<open>valid\<close> says that this list is empty. (Rows read from the table
  never hold \<open>undefined\<close> as metadata.)
\<close>

theorem verifyBlockchain_reports_all:
  assumes "\<forall>b\<in>set (rows st). metadata b \<noteq> JUndefined"
  shows "verifyBlockchain st =
           Some \<lparr>valid = (verifyAll_errors (findAll_asc st) = []),
                 errors = verifyAll_errors (findAll_asc st)\<rparr>
         \<and> sorted (map created_at (findAll_asc st)) \<and> mset (findAll_asc st) = mset (rows st)"
proof -
  have "\<forall>b\<in>set (findAll_asc st). metadata b \<noteq> JUndefined"
    using assms by (simp add: findAll_asc_def)
  from verify_loop_eq [OF this, of 0 "[]"]
  show ?thesis
    by (simp add: verifyBlockchain_def verifyAll_errors_def findAll_asc_def)
qed

theorem verifyBlockchain_reports_all_witness:
  "verifyBlockchain ex_store_bad =
     Some \<lparr>valid = False,
           errors = [''Block 3 has invalid hash'', ''First block 3 should have null previous_hash'',
                     ''Block 7 has invalid hash'', ''Block 7 has invalid previous hash link'']\<rparr>"
  using verifyBlockchain_reports_all [of ex_store_bad]
  by (simp add: ex_store_bad_def verifyAll_errors_def hash_errors_def link_errors_def
        ledger_eval text_eval date_eval calculateHash_neq upt_conv_Cons)

subsection \<open>C8: the anonymized export\<close>

lemma length_parseSignatureData:
  "length (parseSignatureData parse data) = signature_list_length parse data"
  by (auto simp: parseSignatureData_def signature_list_length_def split: option.splits jsval.splits)

lemma insort_key_rel:
  assumes "R x y" and "list_all2 R xs ys" and "\<And>a b. R a b \<Longrightarrow> f a = g b"
  shows "list_all2 R (insort_key f x xs) (insort_key g y ys)"
  using assms(2)
proof (induction rule: list_all2_induct)
  case Nil
  then show ?case using assms(1) by simp
next
  case (Cons a as b bs)
  have "f x = g y" "f a = g b" using assms(1,3) Cons.hyps(1) by auto
  then show ?case using Cons assms(1) by simp
qed

lemma sort_key_rel:
  assumes "list_all2 R xs ys" and "\<And>a b. R a b \<Longrightarrow> f a = g b"
  shows "list_all2 R (sort_key f xs) (sort_key g ys)"
  using assms(1)
proof (induction rule: list_all2_induct)
  case Nil
  then show ?case by simp
next
  case (Cons a as b bs)
  then show ?case
    by (simp add: sort_key_def insort_key_rel [where R = R, OF _ _ assms(2)])
qed

lemma getAnonymizedBlockchain_eq:
  "getAnonymizedBlockchain parse limit st =
     map (\<lambda>i. anonymize parse i (take (case limit of None \<Rightarrow> 1000 | Some n \<Rightarrow> n) (findAll_asc st) ! i))
         [0..<length (take (case limit of None \<Rightarrow> 1000 | Some n \<Rightarrow> n) (findAll_asc st))]"
  unfolding getAnonymizedBlockchain_def Let_def
  by (rule nth_equalityI) auto

lemma anonymize_same_public:
  "same_public b b' \<Longrightarrow> anonymize parse i b = anonymize parse i b'"
  by (simp add: anonymize_def same_public_def)

lemma safeLimit_range: "1 \<le> safeLimit q \<and> safeLimit q \<le> 5000"
  by (auto simp: safeLimit_def split: option.splits)

text \<open>
  C8. The anonymized export lists the first \<open>limit\<close> blocks in chronological
  (oldest-first) order. The entry at position \<open>i\<close> (counted from 0) has the sequence
  number \<open>i + 1\<close>, the block's hash, previous hash, content hash and creation instant,
  \<open>signature_count\<close> the length of the list \<open>signature_data\<close> parses to (0 if it is
  empty or does not parse to a list), \<open>signature_hash\<close> the hash of the raw
  \<open>signature_data\<close> string and \<open>metadata_keys\<close> the key names of the metadata. It
  holds no \<open>document_id\<close> and no metadata value: two tables whose rows differ only in
  \<open>id\<close>, \<open>document_id\<close> and the values of the metadata have the same export. An
  omitted \<open>limit\<close> is 1000, and the route clamps the query parameter to \<open>1 .. 5000\<close>,
  taking 1000 when it is absent or not a number.
\<close>

theorem anonymized_export:
  "length (getAnonymizedBlockchain parse (Some n) st) = min n (length (rows st)) \<and>
   (\<forall>i < length (getAnonymizedBlockchain parse (Some n) st).
      getAnonymizedBlockchain parse (Some n) st ! i =
        \<lparr>sequence = i + 1,
         block_hash = hash (findAll_asc st ! i),
         previous_hash_anon = previous_hash (findAll_asc st ! i),
         content_hash_anon = content_hash (findAll_asc st ! i),
         signature_count = signature_list_length parse (signature_data (findAll_asc st ! i)),
         signature_hash = calculateHash (utf8_encode (signature_data (findAll_asc st ! i))),
         metadata_keys = Object_keys (nullish (metadata (findAll_asc st ! i)) (JObj [])),
         created_at_anon = created_at (findAll_asc st ! i)\<rparr>) \<and>
   sorted (map created_at_anon (getAnonymizedBlockchain parse (Some n) st)) \<and>
   sorted (map created_at (findAll_asc st)) \<and> mset (findAll_asc st) = mset (rows st) \<and>
   (\<forall>kvs. Object_keys (nullish (JObj kvs) (JObj [])) = map fst kvs) \<and>
   (\<forall>st'. list_all2 same_public (rows st) (rows st') \<longrightarrow>
      getAnonymizedBlockchain parse (Some n) st' = getAnonymizedBlockchain parse (Some n) st) \<and>
   getAnonymizedBlockchain parse None st = getAnonymizedBlockchain parse (Some 1000) st \<and>
   export_get parse q st =
     (length (getAnonymizedBlockchain parse (Some (nat (safeLimit q))) st),
      getAnonymizedBlockchain parse (Some (nat (safeLimit q))) st) \<and>
   1 \<le> safeLimit q \<and> safeLimit q \<le> 5000 \<and> safeLimit None = 1000 \<and>
   (\<forall>s. safeLimit (Some s) = (case parseInt10 s of None \<Rightarrow> 1000 | Some l \<Rightarrow> min (max l 1) 5000))"
proof -
  let ?ex = "getAnonymizedBlockchain parse (Some n) st"
  have len: "length ?ex = min n (length (rows st))"
    by (simp add: getAnonymizedBlockchain_eq findAll_asc_def min.commute)
  have nth: "\<forall>i < length ?ex. ?ex ! i =
        \<lparr>sequence = i + 1,
         block_hash = hash (findAll_asc st ! i),
         previous_hash_anon = previous_hash (findAll_asc st ! i),
         content_hash_anon = content_hash (findAll_asc st ! i),
         signature_count = signature_list_length parse (signature_data (findAll_asc st ! i)),
         signature_hash = calculateHash (utf8_encode (signature_data (findAll_asc st ! i))),
         metadata_keys = Object_keys (nullish (metadata (findAll_asc st ! i)) (JObj [])),
         created_at_anon = created_at (findAll_asc st ! i)\<rparr>"
    by (simp add: getAnonymizedBlockchain_eq anonymize_def length_parseSignatureData)
  have srt: "sorted (map created_at (findAll_asc st))"
    by (simp add: findAll_asc_def)
  have "map created_at_anon ?ex = take n (map created_at (findAll_asc st))"
    by (rule nth_equalityI) (simp_all add: getAnonymizedBlockchain_eq anonymize_def)
  then have srt': "sorted (map created_at_anon ?ex)"
    using srt by (simp add: sorted_wrt_take)
  have ni: "\<forall>st'. list_all2 same_public (rows st) (rows st') \<longrightarrow>
      getAnonymizedBlockchain parse (Some n) st' = ?ex"
  proof (intro allI impI)
    fix st' :: store
    assume r: "list_all2 same_public (rows st) (rows st')"
    have "list_all2 same_public (findAll_asc st) (findAll_asc st')"
      unfolding findAll_asc_def
      by (rule sort_key_rel [OF r]) (simp add: same_public_def)
    then have t: "list_all2 same_public (take n (findAll_asc st)) (take n (findAll_asc st'))"
      by (rule list_all2_takeI)
    then have l: "length (take n (findAll_asc st)) = length (take n (findAll_asc st'))"
      by (rule list_all2_lengthD)
    have "anonymize parse i (take n (findAll_asc st') ! i) = anonymize parse i (take n (findAll_asc st) ! i)"
      if "i < length (take n (findAll_asc st))" for i
      using t that by (metis anonymize_same_public list_all2_nthD)
    then show "getAnonymizedBlockchain parse (Some n) st' = ?ex"
      unfolding getAnonymizedBlockchain_eq option.case l [symmetric]
      by (intro map_cong refl) simp
  qed
  show ?thesis
    using len nth srt srt' ni safeLimit_range [of q]
    by (simp add: findAll_asc_def getAnonymizedBlockchain_def export_get_def safeLimit_def
          Object_keys_def nullish_def)
qed

lemmas export_eval = getAnonymizedBlockchain_def anonymize_def parseSignatureData_def Object_keys_def
  nullish_def safeLimit_def parseInt10_def is_space_def is_digit_def digits_value_def export_get_def
  signature_list_length_def

theorem anonymized_export_witness:
  "getAnonymizedBlockchain ex_parse (Some 5) ex_store_export =
     [\<lparr>sequence = 1, block_hash = ''h1'', previous_hash_anon = None, content_hash_anon = ''aaa'',
       signature_count = 0, signature_hash = calculateHash ''not json'', metadata_keys = [],
       created_at_anon = 1704067200010\<rparr>,
      \<lparr>sequence = 2, block_hash = ''h2'', previous_hash_anon = Some ''h1'', content_hash_anon = ''bbb'',
       signature_count = 2, signature_hash = calculateHash ex_signatures,
       metadata_keys = [''placeholders'', ''pdf_path''], created_at_anon = 1704067200020\<rparr>]
   \<and> safeLimit (Some ''9999'') = 5000 \<and> safeLimit (Some '' 42abc'') = 42
   \<and> safeLimit (Some ''-3'') = 1 \<and> safeLimit (Some ''abc'') = 1000 \<and> safeLimit None = 1000"
  using anonymized_export [of ex_parse 5 ex_store_export "Some ''9999''"]
  by (simp add: ex_store_export_def ex_parse_def ex_signatures_def export_eval findAll_asc_def
        text_eval upt_conv_Cons)

subsection \<open>C9: \<open>extractPreviewEnvelope\<close> degrades instead of raising\<close>





subsection \<open>C5: the deterministic serializer ignores key order\<close>

lemma sort_eq_of_set_eq:
  assumes "distinct xs" "distinct ys" "set xs = set ys"
  shows "sort xs = sort ys"
  by (rule sorted_distinct_set_unique) (use assms in simp_all)

lemma deterministicStringify_equiv:
  assumes "js_equiv m1 m2"
  shows "deterministicStringify m1 = deterministicStringify m2"
  using assms
proof (induction rule: js_equiv.induct)
  case (same v)
  then show ?case by simp
next
  case (arr xs ys)
  then have "map (\<lambda>x. case deterministicStringify x of None \<Rightarrow> [] | Some s \<Rightarrow> s) xs
           = map (\<lambda>x. case deterministicStringify x of None \<Rightarrow> [] | Some s \<Rightarrow> s) ys"
    by (induction rule: list_all2_induct) simp_all
  then show ?case by simp
next
  case (obj xs ys)
  have keys: "sort (map fst xs) = sort (map fst ys)"
    using obj.hyps(1-3) by (rule sort_eq_of_set_eq)
  have "(case map_of xs k of None \<Rightarrow> ''undefined''
          | Some v \<Rightarrow> (case deterministicStringify v of None \<Rightarrow> ''undefined'' | Some s \<Rightarrow> s))
      = (case map_of ys k of None \<Rightarrow> ''undefined''
          | Some v \<Rightarrow> (case deterministicStringify v of None \<Rightarrow> ''undefined'' | Some s \<Rightarrow> s))"
    if "k \<in> set (map fst xs)" for k
  proof -
    from that obtain v where v: "map_of xs k = Some v"
      by (metis map_of_eq_None_iff not_Some_eq set_map)
    with obj.IH obtain w where "map_of ys k = Some w" "deterministicStringify v = deterministicStringify w"
      by blast
    with v show ?thesis by simp
  qed
  then have eq: "map (\<lambda>k. JSON_quote k @ '':'' @
                 (case map_of xs k of None \<Rightarrow> ''undefined''
                  | Some v \<Rightarrow> (case deterministicStringify v of None \<Rightarrow> ''undefined'' | Some s \<Rightarrow> s)))
             (sort (map fst xs))
         = map (\<lambda>k. JSON_quote k @ '':'' @
                 (case map_of ys k of None \<Rightarrow> ''undefined''
                  | Some v \<Rightarrow> (case deterministicStringify v of None \<Rightarrow> ''undefined'' | Some s \<Rightarrow> s)))
             (sort (map fst xs))"
    by (intro map_cong refl) simp
  show ?case
    by (simp only: deterministicStringify.simps keys [symmetric] eq)
qed

lemma map_fst_insort_key: "map fst (insort_key fst x xs) = insort (fst x) (map fst xs)"
  by (induction xs) simp_all

lemma map_fst_sort_key: "map fst (sort_key fst kvs) = sort (map fst kvs)"
  by (induction kvs) (simp_all add: map_fst_insort_key)

lemma insort_key_map_same_key:
  assumes "\<And>kv. fst (g kv) = fst kv"
  shows "insort_key fst (g x) (map g xs) = map g (insort_key fst x xs)"
  by (induction xs) (simp_all add: assms)

lemma sort_key_map_same_key:
  assumes "\<And>kv. fst (g kv) = fst kv"
  shows "sort_key fst (map g kvs) = map g (sort_key fst kvs)"
  by (induction kvs) (simp_all add: insort_key_map_same_key [OF assms])

lemma deterministicStringify_None: "deterministicStringify v = None \<longleftrightarrow> v = JUndefined"
  by (cases v) auto

lemma JSON_stringify_None: "JSON_stringify v = None \<longleftrightarrow> v = JUndefined"
  by (cases v) auto

lemma deterministicStringify_sorted:
  "wf_js v \<Longrightarrow> is_json v \<Longrightarrow> deterministicStringify v = JSON_stringify (sort_keys v)"
proof (induction v)
  case (JArr xs)
  have "(case deterministicStringify x of None \<Rightarrow> [] | Some s \<Rightarrow> s)
      = (case JSON_stringify (sort_keys x) of None \<Rightarrow> ''null'' | Some s \<Rightarrow> s)"
    if "x \<in> set xs" for x
  proof -
    from that JArr.prems have "wf_js x" "is_json x" by (auto simp: list_all_iff)
    with JArr.IH that have e: "deterministicStringify x = JSON_stringify (sort_keys x)" by blast
    from \<open>is_json x\<close> have "deterministicStringify x \<noteq> None"
      by (auto simp: deterministicStringify_None)
    with e show ?thesis by auto
  qed
  then have "map (\<lambda>x. case deterministicStringify x of None \<Rightarrow> [] | Some s \<Rightarrow> s) xs
           = map (\<lambda>x. case JSON_stringify x of None \<Rightarrow> ''null'' | Some s \<Rightarrow> s) (map sort_keys xs)"
    by (simp add: o_def cong: map_cong)
  then show ?case by (simp only: deterministicStringify.simps sort_keys.simps JSON_stringify.simps)
next
  case (JObj kvs)
  let ?g = "\<lambda>kv. (fst kv, sort_keys (snd kv))"
  let ?R = "\<lambda>r. (case r of None \<Rightarrow> ''undefined''
                   | Some v \<Rightarrow> (case deterministicStringify v of None \<Rightarrow> ''undefined'' | Some s \<Rightarrow> s))"
  from JObj.prems have d: "distinct (map fst kvs)" by simp
  have each: "JSON_quote (fst kv) @ '':'' @ ?R (map_of kvs (fst kv))
          = (case JSON_stringify (snd (?g kv)) of None \<Rightarrow> []
               | Some s \<Rightarrow> JSON_quote (fst (?g kv)) @ '':'' @ s)
        \<and> JSON_stringify (snd (?g kv)) \<noteq> None"
    if "kv \<in> set kvs" for kv
  proof -
    have m: "map_of kvs (fst kv) = Some (snd kv)"
      using map_of_is_SomeI [OF d, of "fst kv" "snd kv"] that by simp
    from that JObj.prems have "wf_js (snd kv)" "is_json (snd kv)" by (auto simp: list_all_iff)
    moreover have "snd kv \<in> Basic_BNFs.snds kv" by (cases kv) simp
    ultimately have e: "deterministicStringify (snd kv) = JSON_stringify (sort_keys (snd kv))"
      using JObj.IH that by blast
    from \<open>is_json (snd kv)\<close> have "deterministicStringify (snd kv) \<noteq> None"
      by (auto simp: deterministicStringify_None)
    with e m show ?thesis by auto
  qed
  have lhs: "map (\<lambda>k. JSON_quote k @ '':'' @ ?R (map_of kvs k)) (sort (map fst kvs))
           = map (\<lambda>kv. JSON_quote (fst kv) @ '':'' @ ?R (map_of kvs (fst kv))) (sort_key fst kvs)"
    by (simp add: map_fst_sort_key [symmetric] o_def)
  have rhs: "concat (map (\<lambda>kv. case JSON_stringify (snd kv) of None \<Rightarrow> []
                              | Some s \<Rightarrow> [JSON_quote (fst kv) @ '':'' @ s])
                     (sort_key fst (map ?g kvs)))
           = map (\<lambda>kv. JSON_quote (fst kv) @ '':'' @ ?R (map_of kvs (fst kv))) (sort_key fst kvs)"
  proof -
    have "sort_key fst (map ?g kvs) = map ?g (sort_key fst kvs)"
      by (rule sort_key_map_same_key) simp
    moreover have "concat (map (\<lambda>kv. case JSON_stringify (snd kv) of None \<Rightarrow> []
                              | Some s \<Rightarrow> [JSON_quote (fst kv) @ '':'' @ s]) (map ?g ys))
           = map (\<lambda>kv. JSON_quote (fst kv) @ '':'' @ ?R (map_of kvs (fst kv))) ys"
      if "set ys \<subseteq> set kvs" for ys
      using that
    proof (induction ys)
      case Nil
      then show ?case by simp
    next
      case (Cons y ys)
      then have "y \<in> set kvs" by simp
      from each [OF this] Cons show ?case by (auto split: option.splits)
    qed
    ultimately show ?thesis by simp
  qed
  show ?case
    by (simp only: deterministicStringify.simps sort_keys.simps JSON_stringify.simps lhs rhs)
qed simp_all

text \<open>
  C5. The deterministic serializer is insensitive to the order in which the keys of a
  mapping were inserted: two values that are structurally equal regardless of key order
  have the same serialization and the same hash. On a JSON value the serialization is
  \<open>JSON.stringify\<close> (the standard compact JSON encoding, without white space: objects as
  \<open>{"key":value,...}\<close>, arrays as \<open>[...]\<close>, scalars as JSON scalars) of the value with
  the keys of every object sorted lexicographically.
\<close>

theorem deterministic_serializer:
  "(js_equiv m1 m2 \<longrightarrow>
      deterministicStringify m1 = deterministicStringify m2 \<and>
      calculateObjectHash m1 = calculateObjectHash m2) \<and>
   (wf_js v \<and> is_json v \<longrightarrow> deterministicStringify v = JSON_stringify (sort_keys v))"
  using deterministicStringify_equiv [of m1 m2] deterministicStringify_sorted [of v]
  by (auto simp: calculateObjectHash_def)

lemma ex_m1_m2_equiv: "js_equiv ex_m1 ex_m2"
proof -
  have inner: "js_equiv (JObj [(''y'', JStr ''q''), (''x'', JNum (- 2))])
                        (JObj [(''x'', JNum (- 2)), (''y'', JStr ''q'')])"
    by (rule js_equiv.obj) (auto split: if_splits intro: js_equiv.same)
  have arr: "js_equiv (JArr [JBool True, JNull, JObj [(''y'', JStr ''q''), (''x'', JNum (- 2))]])
                      (JArr [JBool True, JNull, JObj [(''x'', JNum (- 2)), (''y'', JStr ''q'')]])"
    by (rule js_equiv.arr) (simp add: inner js_equiv.same)
  show ?thesis
    unfolding ex_m1_def ex_m2_def
    by (rule js_equiv.obj) (auto split: if_splits intro: js_equiv.same arr)
qed

theorem deterministic_serializer_witness:
  "js_equiv ex_m1 ex_m2 \<and> wf_js ex_m1 \<and> is_json ex_m1 \<and>
   deterministicStringify ex_m1 = deterministicStringify ex_m2 \<and>
   calculateObjectHash ex_m1 = calculateObjectHash ex_m2 \<and>
   deterministicStringify ex_m1 = JSON_stringify ex_m2 \<and>
   JSON_stringify ex_m2 =
     Some (''{'' @ JSON_quote ''a'' @ '':[true,null,{'' @ JSON_quote ''x'' @ '':-2,'' @ JSON_quote ''y''
           @ '':'' @ JSON_quote ''q'' @ ''}],'' @ JSON_quote ''b'' @ '':1}'')"
  using deterministic_serializer [of ex_m1 ex_m2 ex_m1] ex_m1_m2_equiv
  by (simp add: ex_m1_def ex_m2_def text_eval)



subsection \<open>C10: \<open>undefined\<close> property values and normalisation\<close>

lemma sublist_mid:
  assumes "sublist x ys"
  shows "sublist x (ps @ ys @ ss)"
proof -
  from assms obtain p s where "ys = p @ x @ s" by (auto simp: sublist_def)
  then have "ps @ ys @ ss = (ps @ p) @ x @ (s @ ss)" by simp
  then show ?thesis unfolding sublist_def by blast
qed

lemma sublist_join_with: "x \<in> set xs \<Longrightarrow> sublist x (join_with sep xs)"
proof (induction sep xs rule: join_with.induct)
  case (3 sep y z zs)
  show ?case
  proof (cases "x = y")
    case True
    then show ?thesis by (simp add: sublist_append_rightI)
  next
    case False
    with 3 have "sublist x (join_with sep (z # zs))" by simp
    from sublist_mid [OF this, of "y @ sep" "[]"] show ?thesis by simp
  qed
qed simp_all

lemma json_roundtrip_obj_mem:
  assumes "(k, w) \<in> set (concat (map (\<lambda>kv. case json_roundtrip (snd kv) of None \<Rightarrow> []
                                     | Some y \<Rightarrow> [(fst kv, y)]) kvs))"
  shows "\<exists>v. (k, v) \<in> set kvs \<and> json_roundtrip v = Some w"
  using assms
proof (induction kvs)
  case Nil
  then show ?case by simp
next
  case (Cons kv kvs)
  show ?case
  proof (cases "json_roundtrip (snd kv)")
    case None
    with Cons show ?thesis by auto
  next
    case (Some y)
    with Cons show ?thesis by (cases kv) auto
  qed
qed

lemma sha_empty_object:
  "calculateHash ''{}'' = ''44136fa355b3678a1146ad16f7e8649e94fb4fc21fe77e8310c060f61caaff8a''"
  by (simp add: sha_eval del: list.size(4))

lemma sha_undefined_property:
  "calculateHash (''{'' @ JSON_quote ''a'' @ '':undefined}'')
     = ''6a52fa367b4e61b31d75eb0b0f4a5265bedfd76bc748585f4ef62fa674370a02''"
  by (simp add: sha_eval text_eval del: list.size(4))

text \<open>
  C10. For every mapping with a key whose value is \<open>undefined\<close>,
  \<open>deterministicStringify\<close> writes that key followed by the text \<open>undefined\<close> (which is
  not JSON), whereas the normalisation \<open>JSON.parse(JSON.stringify(m))\<close> drops the key.
  Consequently there are metadata values whose hash differs from the hash of their
  normalisation: for \<open>{a: undefined}\<close> the two SHA-256 digests are computed.
\<close>

theorem undefined_values_break_normalisation:
  "((k, JUndefined) \<in> set kvs \<and> distinct (map fst kvs) \<longrightarrow>
      (\<exists>s. deterministicStringify (JObj kvs) = Some s \<and> sublist (JSON_quote k @ '':undefined'') s) \<and>
      (\<exists>kvs'. json_roundtrip (JObj kvs) = Some (JObj kvs') \<and> k \<notin> set (map fst kvs'))) \<and>
   (\<exists>m m'. json_roundtrip m = Some m' \<and> calculateObjectHash m \<noteq> calculateObjectHash m')"
proof (intro conjI impI)
  assume a: "(k, JUndefined) \<in> set kvs \<and> distinct (map fst kvs)"
  then have m: "map_of kvs k = Some JUndefined" by simp
  from a have "k \<in> set (sort (map fst kvs))" by force
  then have "JSON_quote k @ '':'' @ ''undefined''
      \<in> set (map (\<lambda>k. JSON_quote k @ '':'' @
                 (case map_of kvs k of
                    None \<Rightarrow> ''undefined''
                  | Some v \<Rightarrow> (case deterministicStringify v of
                                None \<Rightarrow> ''undefined'' | Some s \<Rightarrow> s)))
             (sort (map fst kvs)))"
    using m by (force simp: image_iff)
  from sublist_mid [OF sublist_join_with [OF this, of "'',''"], of "''{''" "''}''"]
  show "\<exists>s. deterministicStringify (JObj kvs) = Some s \<and> sublist (JSON_quote k @ '':undefined'') s"
    by simp
  show "\<exists>kvs'. json_roundtrip (JObj kvs) = Some (JObj kvs') \<and> k \<notin> set (map fst kvs')"
  proof (intro exI conjI)
    show "json_roundtrip (JObj kvs) = Some (JObj (concat (map (\<lambda>kv. case json_roundtrip (snd kv) of None \<Rightarrow> []
                                     | Some y \<Rightarrow> [(fst kv, y)]) kvs)))" by simp
    show "k \<notin> set (map fst (concat (map (\<lambda>kv. case json_roundtrip (snd kv) of None \<Rightarrow> []
                                     | Some y \<Rightarrow> [(fst kv, y)]) kvs)))"
    proof
      assume "k \<in> set (map fst (concat (map (\<lambda>kv. case json_roundtrip (snd kv) of None \<Rightarrow> []
                                     | Some y \<Rightarrow> [(fst kv, y)]) kvs)))"
      then obtain w where "(k, w) \<in> set (concat (map (\<lambda>kv. case json_roundtrip (snd kv) of None \<Rightarrow> []
                                     | Some y \<Rightarrow> [(fst kv, y)]) kvs))" by force
      from json_roundtrip_obj_mem [OF this] obtain v where v: "(k, v) \<in> set kvs" "json_roundtrip v = Some w"
        by blast
      from a v(1) have "v = JUndefined" by (metis map_of_is_SomeI option.inject)
      with v(2) show False by simp
    qed
  qed
next
  have "json_roundtrip (JObj [(''a'', JUndefined)]) = Some (JObj [])" by simp
  moreover have "calculateObjectHash (JObj [(''a'', JUndefined)]) \<noteq> calculateObjectHash (JObj [])"
    using sha_empty_object sha_undefined_property
    by (simp add: calculateObjectHash_def utf8_encode_def utf8_char_def JSON_quote_def escape_char_def)
  ultimately show "\<exists>m m'. json_roundtrip m = Some m' \<and> calculateObjectHash m \<noteq> calculateObjectHash m'"
    by blast
qed

theorem undefined_values_break_normalisation_witness:
  "deterministicStringify (JObj [(''b'', JNum 1), (''a'', JUndefined)])
     = Some (''{'' @ JSON_quote ''a'' @ '':undefined,'' @ JSON_quote ''b'' @ '':1}'') \<and>
   sublist (JSON_quote ''a'' @ '':undefined'')
     (''{'' @ JSON_quote ''a'' @ '':undefined,'' @ JSON_quote ''b'' @ '':1}'') \<and>
   json_roundtrip (JObj [(''b'', JNum 1), (''a'', JUndefined)]) = Some (JObj [(''b'', JNum 1)])"
  using undefined_values_break_normalisation [of "''a''" "[(''b'', JNum 1), (''a'', JUndefined)]"]
  by (simp add: text_eval)

subsection \<open>C2: attaching and extracting the envelope\<close>





















subsection \<open>C1: ledgers built by \<open>createBlock\<close>\<close>

lemma json_roundtrip_idem: "json_roundtrip v = Some w \<Longrightarrow> json_roundtrip w = Some w"
proof (induction v arbitrary: w)
  case (JArr xs)
  let ?g = "\<lambda>x. case json_roundtrip x of None \<Rightarrow> JNull | Some y \<Rightarrow> y"
  have "?g (?g x) = ?g x" if "x \<in> set xs" for x
  proof (cases "json_roundtrip x")
    case None
    then show ?thesis by simp
  next
    case (Some y)
    from JArr.IH [OF that Some] Some show ?thesis by simp
  qed
  then have "map ?g (map ?g xs) = map ?g xs" by (induction xs) auto
  with JArr.prems show ?case by auto
next
  case (JObj kvs)
  let ?h = "\<lambda>kv. case json_roundtrip (snd kv) of None \<Rightarrow> [] | Some y \<Rightarrow> [(fst kv, y)]"
  have one: "concat (map ?h (?h kv)) = ?h kv" if "kv \<in> set kvs" for kv
  proof (cases "json_roundtrip (snd kv)")
    case None
    then show ?thesis by simp
  next
    case (Some y)
    have "snd kv \<in> Basic_BNFs.snds kv" by (cases kv) simp
    from JObj.IH [OF that this Some] Some show ?thesis by simp
  qed
  have "concat (map ?h (concat (map ?h ys))) = concat (map ?h ys)" if "set ys \<subseteq> set kvs" for ys
    using that
  proof (induction ys)
    case Nil
    then show ?case by simp
  next
    case (Cons kv ys)
    then have "kv \<in> set kvs" by simp
    from one [OF this] Cons show ?case by simp
  qed
  from this [of kvs] JObj.prems show ?case by auto
qed simp_all

lemma createBlock_calculatedHash:
  assumes "createBlock now now st d c s m = Inr (st', b)"
  shows "calculatedHash b = Some (hash b)"
proof -
  let ?meta = "if m = JUndefined then JObj [] else m"
  from assms obtain normalized where n: "json_roundtrip ?meta = Some normalized"
    unfolding createBlock_def Let_def by (auto split: option.splits)
  from assms n obtain t where
    t: "deterministicStringify (blockData d (map_option hash (findOne_desc st)) c s normalized
          (toISOString now)) = Some t"
    unfolding createBlock_def Let_def by (auto split: option.splits simp: map_option_case)
  from assms n t have b: "metadata b = normalized" "created_at b = now" "document_id b = d"
    "content_hash b = c" "signature_data b = s" "previous_hash b = map_option hash (findOne_desc st)"
    "hash b = calculateHash (utf8_encode t)"
    unfolding createBlock_def DocumentBlock_create_def Let_def
    by (auto split: option.splits if_splits simp: map_option_case)
  from json_roundtrip_idem [OF n] b t show ?thesis
    by (simp add: calculatedHash_def)
qed

lemma findOne_desc_sorted:
  assumes "sorted_wrt (<) (map created_at (rows st))"
  shows "findOne_desc st = (if rows st = [] then None else Some (last (rows st)))"
proof (cases "rows st = []")
  case True
  then show ?thesis by (simp add: findOne_desc_empty)
next
  case False
  then obtain p where p: "findOne_desc st = Some p"
    using findOne_desc_empty [of st] by auto
  from findOne_desc_latest [OF p]
  have mem: "p \<in> set (rows st)" and top: "\<forall>q\<in>set (rows st). created_at q \<le> created_at p"
    by auto
  from mem obtain j where j: "j < length (rows st)" "rows st ! j = p"
    by (auto simp: in_set_conv_nth)
  let ?n = "length (rows st) - 1"
  have "j = ?n"
  proof (rule ccontr)
    assume "j \<noteq> ?n"
    with j have lt: "j < ?n" "?n < length (rows st)" by auto
    from assms lt have "created_at (rows st ! j) < created_at (rows st ! ?n)"
      by (simp add: sorted_wrt_iff_nth_less)
    moreover have "rows st ! ?n \<in> set (rows st)" using lt by simp
    with top have "created_at (rows st ! ?n) \<le> created_at p" by blast
    ultimately show False using j by simp
  qed
  with j False have "p = last (rows st)" by (simp add: last_conv_nth)
  with p False show ?thesis by simp
qed

lemma appended_invariant:
  assumes "appended st"
  shows "sorted_wrt (<) (map created_at (rows st)) \<and>
         (\<forall>b\<in>set (rows st). calculatedHash b = Some (hash b)) \<and>
         (\<forall>i<length (rows st).
            previous_hash (rows st ! i) = (if i = 0 then None else Some (hash (rows st ! (i - 1)))))"
  using assms
proof (induction rule: appended.induct)
  case start
  then show ?case by (simp add: empty_store_def)
next
  case (step st now d c s m st' b)
  from createBlock_Inr [OF step.hyps(3)]
  have r: "rows st' = rows st @ [b]" and ph: "previous_hash b = map_option hash (findOne_desc st)"
    and ca: "created_at b = now" by auto
  from step.IH have srt: "sorted_wrt (<) (map created_at (rows st))" by simp
  have 1: "sorted_wrt (<) (map created_at (rows st'))"
    using srt step.hyps(2) ca by (simp add: r sorted_wrt_append)
  have 2: "\<forall>x\<in>set (rows st'). calculatedHash x = Some (hash x)"
    using step.IH createBlock_calculatedHash [OF step.hyps(3)] by (auto simp: r)
  have 3: "previous_hash (rows st' ! i) = (if i = 0 then None else Some (hash (rows st' ! (i - 1))))"
    if "i < length (rows st')" for i
  proof (cases "i < length (rows st)")
    case True
    then have "i - 1 < length (rows st)" by simp
    with True have "rows st' ! i = rows st ! i" "rows st' ! (i - 1) = rows st ! (i - 1)"
      by (simp_all add: r nth_append)
    with step.IH True show ?thesis by simp
  next
    case False
    with that have i: "i = length (rows st)" by (simp add: r)
    show ?thesis
    proof (cases "rows st = []")
      case True
      with i ph show ?thesis by (simp add: r findOne_desc_sorted [OF srt])
    next
      case False
      with i ph show ?thesis
        by (simp add: r findOne_desc_sorted [OF srt] nth_append last_conv_nth)
    qed
  qed
  from 1 2 3 show ?case by blast
qed

text \<open>
  When the two clock readings of every call coincide, the ledgers built by \<open>createBlock\<close>
  verify: no error is reported.
\<close>

lemma appended_verifies:
  assumes "appended st"
  shows "verifyBlockchain st = Some \<lparr>valid = True, errors = []\<rparr>"
proof -
  from appended_invariant [OF assms]
  have srt: "sorted_wrt (<) (map created_at (rows st))"
    and h: "\<forall>b\<in>set (rows st). calculatedHash b = Some (hash b)"
    and l: "\<forall>i<length (rows st).
            previous_hash (rows st ! i) = (if i = 0 then None else Some (hash (rows st ! (i - 1))))"
    by auto
  from srt have "sorted (map created_at (rows st))"
    by (rule sorted_wrt_mono_rel [rotated]) simp
  then have all: "findAll_asc st = rows st"
    unfolding findAll_asc_def by (rule sort_key_id_if_sorted)
  have meta: "\<forall>b\<in>set (rows st). metadata b \<noteq> JUndefined"
  proof
    fix b assume "b \<in> set (rows st)"
    with h have "calculatedHash b \<noteq> None" by simp
    then show "metadata b \<noteq> JUndefined" by (simp add: calculatedHash_None)
  qed
  have "hash_errors (rows st ! j) @ link_errors (rows st) j = []" if "j < length (rows st)" for j
  proof -
    from that have "rows st ! j \<in> set (rows st)" by simp
    with h have "hash_errors (rows st ! j) = []" by (simp add: hash_errors_def)
    moreover from l that
    have "previous_hash (rows st ! j) = (if j = 0 then None else Some (hash (rows st ! (j - 1))))"
      by blast
    then have "link_errors (rows st) j = []"
      by (cases "j = 0") (simp_all add: link_errors_def)
    ultimately show ?thesis by simp
  qed
  then have "concat (map (\<lambda>j. hash_errors (rows st ! j) @ link_errors (rows st) j)
                [0..<length (rows st)]) = []"
    by simp
  with verify_loop_eq [OF meta, of 0 "[]"] show ?thesis
    by (simp add: verifyBlockchain_def all)
qed

lemma sha_genesis_created:
  "calculateHash (utf8_encode (ex_hashed_text ''2024-01-01T00:00:00.000Z''))
     = ''400c3168547dfdbba5397f28af164bf96e4607c10cd2ec183a911c71d5d9e4d8''"
  by (simp add: ex_hashed_text_def sha_eval text_eval del: list.size(4))

lemma sha_genesis_stored:
  "calculateHash (utf8_encode (ex_hashed_text ''2024-01-01T00:00:00.001Z''))
     = ''ad18f882dc13ea9cfb169618b16bc888b59801c7bcd72149e562b1883b50b57a''"
  by (simp add: ex_hashed_text_def sha_eval text_eval del: list.size(4))

lemma ex_genesis_text:
  "deterministicStringify (blockData ''doc-1'' None ''aaa'' ''[]'' (JObj []) ts)
     = Some (ex_hashed_text ts)"
  by (simp add: blockData_def ex_hashed_text_def)

text \<open>
  C1. The claim is that every ledger built by \<open>createBlock\<close> alone verifies. The code
  does not achieve it: \<open>createBlock\<close> hashes the instant it reads itself and does not store
  it, the ORM stamps \<open>created_at\<close> with its own, later reading of the clock, and
  \<open>verifyBlockchain\<close> recomputes the hash from \<open>created_at\<close>. When the two readings differ
  by one millisecond, the first block appended to an empty ledger is reported as
  \<open>Block 1 has invalid hash\<close>.
\<close>

theorem createBlock_verify_clock_skew:
  "createBlock 1704067200000 1704067200001 empty_store ''doc-1'' ''aaa'' ''[]'' (JObj [])
     = Inr (\<lparr>rows = [ex_genesis], next_id = 2\<rparr>, ex_genesis)
   \<and> verifyBlockchain \<lparr>rows = [ex_genesis], next_id = 2\<rparr>
     = Some \<lparr>valid = False, errors = [''Block 1 has invalid hash'']\<rparr>"
proof -
  have t0: "toISOString 1704067200000 = ''2024-01-01T00:00:00.000Z''"
    by (simp add: date_eval text_eval)
  have t1: "toISOString 1704067200001 = ''2024-01-01T00:00:00.001Z''"
    by (simp add: date_eval text_eval)
  have c: "createBlock 1704067200000 1704067200001 empty_store ''doc-1'' ''aaa'' ''[]'' (JObj [])
     = Inr (\<lparr>rows = [ex_genesis], next_id = 2\<rparr>, ex_genesis)"
    by (simp add: createBlock_def DocumentBlock_create_def findOne_desc_def empty_store_def
          Let_def t0 ex_genesis_text sha_genesis_created ex_genesis_def)
  have h: "calculatedHash ex_genesis
             = Some ''ad18f882dc13ea9cfb169618b16bc888b59801c7bcd72149e562b1883b50b57a''"
    by (simp add: calculatedHash_def ex_genesis_def t1 ex_genesis_text sha_genesis_stored)
  have "verifyAll_errors [ex_genesis] = [''Block 1 has invalid hash'']"
    by (simp add: verifyAll_errors_def hash_errors_def link_errors_def h)
       (simp add: ex_genesis_def text_eval)
  moreover have "verifyBlockchain \<lparr>rows = [ex_genesis], next_id = 2\<rparr>
      = Some \<lparr>valid = (verifyAll_errors [ex_genesis] = []), errors = verifyAll_errors [ex_genesis]\<rparr>"
    using verify_loop_eq [of "[ex_genesis]" 0 "[]"]
    by (simp add: verifyBlockchain_def findAll_asc_def verifyAll_errors_def ex_genesis_def)
  ultimately show ?thesis using c by simp
qed

end
